theory Spec2Isabelle
  imports Main "HOL-Library.Word"
begin

section \<open>JavaScript values\<close>

text \<open>
  The cache endpoints of \<^verbatim>\<open>components/util/CacheUtil.js\<close> handle untyped
  JavaScript values. A value is a primitive or a reference to an object; an object lives
  in a heap at an address, which is its identity, and carries its own enumerable
  properties in insertion order. A number is a 32-bit integer, as the identifier column
  of a table holds it, or \<^verbatim>\<open>NaN\<close>; fractions, larger numbers and the infinities
  are not values here. A string is a list of code units below 256. An object is a plain
  data object or a cache instance: it has no \<^verbatim>\<open>valueOf\<close> or
  \<^verbatim>\<open>toString\<close> of its own, and it is not an array or a function.
\<close>

type_synonym addr = nat

datatype jsval =
    JUndefined
  | JNull
  | JBool bool
  | JNum "32 word"
  | JNaN
  | JStr string
  | JRef addr

type_synonym props = "(string \<times> jsval) list"

type_synonym heap = "addr \<Rightarrow> props"

text \<open>\<^verbatim>\<open>obj[p]\<close>: the value of an own property, \<^verbatim>\<open>undefined\<close> when there is none.\<close>

definition getProp :: "props \<Rightarrow> string \<Rightarrow> jsval" where
  "getProp ps p = (case map_of ps p of None \<Rightarrow> JUndefined | Some v \<Rightarrow> v)"

text \<open>\<^verbatim>\<open>obj[p] = v\<close>: overwrite in place, or append a new property.\<close>

fun setProp :: "props \<Rightarrow> string \<Rightarrow> jsval \<Rightarrow> props" where
  "setProp [] p v = [(p, v)]"
| "setProp ((q, w) # ps) p v = (if q = p then (p, v) # ps else (q, w) # setProp ps p v)"

text \<open>The truth value of a value in a condition (\<^verbatim>\<open>if (x)\<close>, \<^verbatim>\<open>!x\<close>).\<close>

fun truthy :: "jsval \<Rightarrow> bool" where
  "truthy JUndefined = False"
| "truthy JNull = False"
| "truthy (JBool b) = b"
| "truthy (JNum n) = (n \<noteq> 0)"
| "truthy JNaN = False"
| "truthy (JStr s) = (s \<noteq> [])"
| "truthy (JRef a) = True"

subsection \<open>Numbers as strings\<close>

definition digit :: "nat \<Rightarrow> char" where
  "digit d = ''0123456789'' ! (d mod 10)"

fun show_nat :: "nat \<Rightarrow> string" where
  "show_nat n = (if n < 10 then [digit n] else show_nat (n div 10) @ [digit (n mod 10)])"

declare show_nat.simps [simp del]

definition show_int :: "int \<Rightarrow> string" where
  "show_int i = (if i < 0 then CHR ''-'' # show_nat (nat (- i)) else show_nat (nat i))"

text \<open>\<^verbatim>\<open>String(x)\<close>, the property key under which \<^verbatim>\<open>map[x]\<close> is stored.\<close>

fun ToString :: "jsval \<Rightarrow> string" where
  "ToString JUndefined = ''undefined''"
| "ToString JNull = ''null''"
| "ToString (JBool b) = (if b then ''true'' else ''false'')"
| "ToString (JNum n) = show_int (sint n)"
| "ToString JNaN = ''NaN''"
| "ToString (JStr s) = s"
| "ToString (JRef a) = ''[object Object]''"

subsection \<open>Strings as numbers\<close>

text \<open>
  \<^verbatim>\<open>Number(s)\<close> reads a string by the grammar of string numeric literals of the
  language standard (from its 2015 edition on): white space at both ends is dropped; the
  empty string is 0; otherwise the string is a binary, octal or hexadecimal integer with
  its prefix, or a decimal literal with an optional sign, an optional fraction and an
  optional exponent, or a signed \<^verbatim>\<open>Infinity\<close>. Every other string is
  \<^verbatim>\<open>NaN\<close>. The white space below 256 is tab, line feed, vertical tab, form feed,
  carriage return, space and the no-break space.
\<close>

definition is_ws :: "char \<Rightarrow> bool" where
  "is_ws c = (c \<in> set [CHR 0x09, CHR 0x0A, CHR 0x0B, CHR 0x0C, CHR 0x0D, CHR 0x20, CHR 0xA0])"

definition trim :: "string \<Rightarrow> string" where
  "trim s = rev (dropWhile is_ws (rev (dropWhile is_ws s)))"

definition position :: "char \<Rightarrow> string \<Rightarrow> nat" where
  "position c s = length (takeWhile (\<lambda>d. d \<noteq> c) s)"

definition digit_in :: "nat \<Rightarrow> char \<Rightarrow> nat option" where
  "digit_in radix c =
     (let i = min (position c ''0123456789abcdef'') (position c ''0123456789ABCDEF'')
      in if i < radix then Some i else None)"

fun digits_value :: "nat \<Rightarrow> int \<Rightarrow> string \<Rightarrow> int option" where
  "digits_value radix acc [] = Some acc"
| "digits_value radix acc (c # cs) =
     (case digit_in radix c of
        None \<Rightarrow> None
      | Some d \<Rightarrow> digits_value radix (int radix * acc + int d) cs)"

text \<open>
  What a numeric string denotes: an infinity with its sign, or a sign (true for minus),
  a mantissa and a power of ten.
\<close>

datatype strnum = Finite bool int int | Infinite bool

definition ExponentPart :: "string \<Rightarrow> int option" where
  "ExponentPart s =
     (case s of
        [] \<Rightarrow> Some 0
      | c # r \<Rightarrow>
          if c = CHR ''e'' \<or> c = CHR ''E'' then
            (case r of
               [] \<Rightarrow> None
             | sg # ds \<Rightarrow>
                 if sg = CHR ''+'' then (if ds = [] then None else digits_value 10 0 ds)
                 else if sg = CHR ''-'' then
                   (if ds = [] then None else map_option uminus (digits_value 10 0 ds))
                 else digits_value 10 0 r)
          else None)"

definition is_decimal_digit :: "char \<Rightarrow> bool" where
  "is_decimal_digit c = (digit_in 10 c \<noteq> None)"

definition StrUnsignedDecimalLiteral :: "string \<Rightarrow> (int \<times> int) option" where
  "StrUnsignedDecimalLiteral s =
     (let ip = takeWhile is_decimal_digit s; r1 = dropWhile is_decimal_digit s in
      case r1 of
        [] \<Rightarrow> (if ip = [] then None else map_option (\<lambda>m. (m, 0)) (digits_value 10 0 ip))
      | c # r2 \<Rightarrow>
          if c = CHR ''.'' then
            (let fp = takeWhile is_decimal_digit r2; r3 = dropWhile is_decimal_digit r2 in
             if ip = [] \<and> fp = [] then None
             else (case (digits_value 10 0 (ip @ fp), ExponentPart r3) of
                     (Some m, Some e) \<Rightarrow> Some (m, e - int (length fp))
                   | _ \<Rightarrow> None))
          else if ip = [] then None
          else (case (digits_value 10 0 ip, ExponentPart r1) of
                  (Some m, Some e) \<Rightarrow> Some (m, e)
                | _ \<Rightarrow> None))"

definition signed_literal :: "bool \<Rightarrow> string \<Rightarrow> strnum option" where
  "signed_literal neg u =
     (if u = ''Infinity'' then Some (Infinite neg)
      else map_option (\<lambda>(m, e). Finite neg m e) (StrUnsignedDecimalLiteral u))"

definition StrDecimalLiteral :: "string \<Rightarrow> strnum option" where
  "StrDecimalLiteral s =
     (case s of
        [] \<Rightarrow> None
      | c # r \<Rightarrow>
          if c = CHR ''-'' then signed_literal True r
          else if c = CHR ''+'' then signed_literal False r
          else signed_literal False s)"

definition NonDecimalIntegerLiteral :: "string \<Rightarrow> strnum option" where
  "NonDecimalIntegerLiteral s =
     (case s of
        z # p # ds \<Rightarrow>
          if z = CHR ''0'' \<and> ds \<noteq> [] then
            (if p = CHR ''x'' \<or> p = CHR ''X'' then
               map_option (\<lambda>m. Finite False m 0) (digits_value 16 0 ds)
             else if p = CHR ''o'' \<or> p = CHR ''O'' then
               map_option (\<lambda>m. Finite False m 0) (digits_value 8 0 ds)
             else if p = CHR ''b'' \<or> p = CHR ''B'' then
               map_option (\<lambda>m. Finite False m 0) (digits_value 2 0 ds)
             else None)
          else None
      | _ \<Rightarrow> None)"

definition StringToNumber :: "string \<Rightarrow> strnum option" where
  "StringToNumber s =
     (let t = trim s in
      if t = [] then Some (Finite False 0 0)
      else (case NonDecimalIntegerLiteral t of
              Some v \<Rightarrow> Some v
            | None \<Rightarrow> StrDecimalLiteral t))"

text \<open>The global \<^verbatim>\<open>isNaN(x)\<close>: \<^verbatim>\<open>Number(x)\<close> is \<^verbatim>\<open>NaN\<close>.\<close>

fun isNaN :: "jsval \<Rightarrow> bool" where
  "isNaN JUndefined = True"
| "isNaN JNull = False"
| "isNaN (JBool b) = False"
| "isNaN (JNum n) = False"
| "isNaN JNaN = True"
| "isNaN (JStr s) = (StringToNumber s = None)"
| "isNaN (JRef a) = True"

text \<open>
  The number a numeric string denotes is the double nearest to its decimal value, ties
  going to the even mantissa. For an integer \<open>n\<close> of 32 bits this says when that double
  is \<open>n\<close>: the value lies within half a unit in the last place of \<open>n\<close> (the mantissa of
  \<open>n\<close> is even, so both ends are included); below a power of two the unit is half as
  large. Everything is scaled by \<open>2 ^ 54\<close> and by the power of ten to stay in the integers.
\<close>

function log2 :: "int \<Rightarrow> nat" where
  "log2 n = (if n < 2 then 0 else Suc (log2 (n div 2)))"
  by pat_completeness auto
termination
  by (relation "measure nat") auto

declare log2.simps [simp del]

definition rounds_to :: "strnum \<Rightarrow> int \<Rightarrow> bool" where
  "rounds_to v n =
     (case v of
        Infinite neg \<Rightarrow> False
      | Finite neg m e \<Rightarrow>
          if n = 0 then m = 0 \<or> (e < 0 \<and> m * 2 ^ 1075 \<le> 10 ^ nat (- e))
          else
            (neg \<longleftrightarrow> n < 0) \<and>
            (let a = \<bar>n\<bar>; k = log2 a;
                 hi = a * 2 ^ 54 + 2 ^ (k + 1);
                 lo = a * 2 ^ 54 - (if a = 2 ^ k then 2 ^ k else 2 ^ (k + 1))
             in if 0 \<le> e then lo \<le> m * 10 ^ nat e * 2 ^ 54 \<and> m * 10 ^ nat e * 2 ^ 54 \<le> hi
                else lo * 10 ^ nat (- e) \<le> m * 2 ^ 54 \<and> m * 2 ^ 54 \<le> hi * 10 ^ nat (- e)))"

text \<open>\<^verbatim>\<open>Number(s) == n\<close> for a string and an integer.\<close>

definition string_is :: "string \<Rightarrow> int \<Rightarrow> bool" where
  "string_is s n = (case StringToNumber s of None \<Rightarrow> False | Some v \<Rightarrow> rounds_to v n)"

text \<open>The loose comparison \<^verbatim>\<open>x == y\<close>.\<close>

fun loose_eq :: "jsval \<Rightarrow> jsval \<Rightarrow> bool" where
  "loose_eq JUndefined y = (y = JUndefined \<or> y = JNull)"
| "loose_eq JNull y = (y = JUndefined \<or> y = JNull)"
| "loose_eq JNaN y = False"
| "loose_eq (JNum n) y =
     (case y of
        JNum m \<Rightarrow> n = m
      | JStr s \<Rightarrow> string_is s (sint n)
      | JBool b \<Rightarrow> sint n = (if b then 1 else 0)
      | _ \<Rightarrow> False)"
| "loose_eq (JStr s) y =
     (case y of
        JStr t \<Rightarrow> s = t
      | JNum m \<Rightarrow> string_is s (sint m)
      | JBool b \<Rightarrow> string_is s (if b then 1 else 0)
      | JRef a \<Rightarrow> s = ''[object Object]''
      | _ \<Rightarrow> False)"
| "loose_eq (JBool b) y =
     (case y of
        JBool c \<Rightarrow> b = c
      | JNum m \<Rightarrow> sint m = (if b then 1 else 0)
      | JStr t \<Rightarrow> string_is t (if b then 1 else 0)
      | _ \<Rightarrow> False)"
| "loose_eq (JRef a) y =
     (case y of
        JRef b \<Rightarrow> a = b
      | JStr t \<Rightarrow> t = ''[object Object]''
      | _ \<Rightarrow> False)"

subsection \<open>Objects as dictionaries\<close>

text \<open>
  \<^verbatim>\<open>map\<close>, the registry of caches and the nodes of an index are plain objects used
  as dictionaries. Reading a key of such an object finds its own property, or else a
  member that every object inherits from \<^verbatim>\<open>Object.prototype\<close>. These are the
  names of the inherited members; the members themselves are functions, or the prototype
  object for \<^verbatim>\<open>__proto__\<close>, and none of them is a cache endpoint or a cached object.
\<close>

definition Object_prototype_names :: "string list" where
  "Object_prototype_names =
     [''constructor'', ''hasOwnProperty'', ''isPrototypeOf'', ''propertyIsEnumerable'',
      ''toLocaleString'', ''toString'', ''valueOf'', ''__proto__'',
      ''__defineGetter__'', ''__defineSetter__'', ''__lookupGetter__'', ''__lookupSetter__'']"


section \<open>Promises and errors\<close>

text \<open>
  A call either returns a value or returns a rejected promise carrying an error code.
  An exception thrown by the language itself, such as reading a property of
  \<^verbatim>\<open>undefined\<close>, is a \<open>TypeError\<close>.
\<close>

datatype 'a reply = Returned 'a | Rejected string

datatype error = TypeError

section \<open>Indices\<close>

text \<open>
  An index definition names the properties of its composite key and says whether the
  index is unique. The tree under \<^verbatim>\<open>_root\<close> has one level per key property; its
  nodes are created empty while navigating and nothing reads an inner node, so the tree
  is kept as the map from a full key path (the strings under which the levels are
  indexed) to the leaf stored there. The leaf of a unique index is one object, the leaf
  of a non-unique index an array of objects.
\<close>

record indexDef =
  idx_name :: string
  idx_key :: "string list"
  idx_unique :: bool

datatype leaf = One addr | Many "addr list"

record index =
  indexDef :: indexDef
  root :: "string list \<rightharpoonup> leaf"

text \<open>\<^verbatim>\<open>_.last(indexDef.key)\<close> used as a property name: \<^verbatim>\<open>undefined\<close> on an empty key.\<close>

definition leafPropertyName :: "string list \<Rightarrow> string" where
  "leafPropertyName k = (if k = [] then ''undefined'' else last k)"

text \<open>
  The path \<^verbatim>\<open>_getContainerNode\<close> walks for an object, followed by the leaf value.
\<close>

definition objPath :: "indexDef \<Rightarrow> props \<Rightarrow> string list" where
  "objPath d ps =
     map (\<lambda>p. ToString (getProp ps p)) (butlast (idx_key d))
       @ [ToString (getProp ps (leafPropertyName (idx_key d)))]"

text \<open>The path \<^verbatim>\<open>get\<close> walks for its arguments.\<close>

definition argPath :: "jsval list \<Rightarrow> string list" where
  "argPath args =
     map ToString (butlast args) @ [ToString (if args = [] then JUndefined else last args)]"

text \<open>
  \<^verbatim>\<open>_Index.get\<close>, for as many arguments as the key has properties: the leaf at
  the path (\<open>None\<close> is \<^verbatim>\<open>undefined\<close>); a non-unique index first stores an empty
  array where there is none.
\<close>

definition Index_get :: "index \<Rightarrow> jsval list \<Rightarrow> leaf option \<times> index" where
  "Index_get ix args =
     (let path = argPath args in
      if \<not> idx_unique (indexDef ix) \<and> root ix path = None
      then (Some (Many []), ix\<lparr>root := (root ix)(path \<mapsto> Many [])\<rparr>)
      else (root ix path, ix))"

definition Index_addInstance :: "index \<Rightarrow> addr \<Rightarrow> props \<Rightarrow> index" where
  "Index_addInstance ix obj ps =
     (let path = objPath (indexDef ix) ps in
      if \<not> idx_unique (indexDef ix)
      then ix\<lparr>root := (root ix)(path \<mapsto>
             (case root ix path of Some (Many arr) \<Rightarrow> Many (arr @ [obj]) | _ \<Rightarrow> Many [obj]))\<rparr>
      else ix\<lparr>root := (root ix)(path \<mapsto> One obj)\<rparr>)"

text \<open>
  Modelled from the spec: lodash's \<^verbatim>\<open>_.remove\<close> is not part of the repository's
  sources; the spec says that removal from a non-unique leaf removes by identity.
\<close>

definition lodash_remove :: "addr list \<Rightarrow> addr \<Rightarrow> addr list" where
  "lodash_remove arr obj = filter (\<lambda>x. x \<noteq> obj) arr"

definition Index_removeInstance :: "index \<Rightarrow> addr \<Rightarrow> props \<Rightarrow> index" where
  "Index_removeInstance ix obj ps =
     (let path = objPath (indexDef ix) ps in
      if \<not> idx_unique (indexDef ix)
      then (case root ix path of
              Some (Many arr) \<Rightarrow> ix\<lparr>root := (root ix)(path \<mapsto> Many (lodash_remove arr obj))\<rparr>
            | _ \<Rightarrow> ix)
      else ix\<lparr>root := (root ix)(path := None)\<rparr>)"

text \<open>
  An \<^verbatim>\<open>IndexSet\<close> stores each index as a property of its own, under the name of
  the definition, and its two methods go through the definitions in order, reaching for
  each the index under its name. Definitions with the same name therefore share one
  index, built from the last of them, and a call reaches that index once for each of
  them. The set is kept as the list of what each definition finds under its name: the
  entries of one name are copies of the shared index, and each receives what the shared
  index receives.
\<close>

type_synonym IndexSet = "index list"

fun makeIndexName :: "string list \<Rightarrow> string" where
  "makeIndexName [] = []"
| "makeIndexName [p] = p"
| "makeIndexName (p # ps) = p @ ''_'' @ makeIndexName ps"

definition properName :: "indexDef \<Rightarrow> indexDef" where
  "properName d =
     d\<lparr>idx_name := (if idx_name d \<noteq> [] then idx_name d else makeIndexName (idx_key d))\<rparr>"

definition IndexSet_ctor :: "indexDef list \<Rightarrow> IndexSet" where
  "IndexSet_ctor indexDefs =
     (let named = map properName indexDefs in
      map (\<lambda>d. \<lparr>indexDef = last (filter (\<lambda>d'. idx_name d' = idx_name d) named),
                root = Map.empty\<rparr>) named)"

text \<open>How many definitions reach the index of an entry.\<close>

definition sharers :: "IndexSet \<Rightarrow> index \<Rightarrow> nat" where
  "sharers ixs ix =
     length (filter (\<lambda>ix'. idx_name (indexDef ix') = idx_name (indexDef ix)) ixs)"

definition IndexSet_addInstance :: "IndexSet \<Rightarrow> addr \<Rightarrow> props \<Rightarrow> IndexSet" where
  "IndexSet_addInstance ixs obj ps =
     map (\<lambda>ix. ((\<lambda>i. Index_addInstance i obj ps) ^^ sharers ixs ix) ix) ixs"

definition IndexSet_removeInstance :: "IndexSet \<Rightarrow> addr \<Rightarrow> props \<Rightarrow> IndexSet" where
  "IndexSet_removeInstance ixs obj ps =
     map (\<lambda>ix. ((\<lambda>i. Index_removeInstance i obj ps) ^^ sharers ixs ix) ix) ixs"


section \<open>Cache endpoints\<close>

text \<open>
  What an endpoint does besides changing its storage is kept as a trace: the hooks it
  calls, the events it fires with their payload, the requests it sends to the other side
  and the errors it hands to the shared error handler, in the order of the calls.
\<close>

datatype event =
    OnWrapObject jsval
  | Wrapped jsval
  | Updating "addr list" jsval
  | OnAddedObject addr
  | OnCacheChanged "addr list"
  | Updated "addr list" jsval
  | OnRemovedObject addr
  | Removed addr
  | HostRequest string string jsval
  | HandleError string

text \<open>
  The fixed part of an endpoint: the identifier accessor of its cache declaration (a
  function of the object's properties), whether an \<^verbatim>\<open>InstanceClass\<close> was built for
  it, and the deep comparison \<^verbatim>\<open>angular.equals\<close>, a library function outside the
  repository that reads nested objects through the heap.
\<close>

record config =
  cache_name :: string
  idGetter :: "props \<Rightarrow> jsval"
  InstanceClass :: bool
  angular_equals :: "heap \<Rightarrow> jsval \<Rightarrow> jsval \<Rightarrow> bool"

text \<open>
  The client endpoint: \<^verbatim>\<open>list\<close>, \<^verbatim>\<open>map\<close>, \<^verbatim>\<open>indices\<close> and
  \<^verbatim>\<open>nUpdates\<close>, together with the heap of objects and the next free address.
  \<^verbatim>\<open>map\<close> and the nodes of an index are objects used as dictionaries, keyed by
  the string a value converts to. They are read by their own properties: an id or an
  indexed value whose key is the name of an inherited member (see
  \<open>Object_prototype_names\<close>) is outside the endpoint as it is modelled here. The key of
  a value that converts to a number is never such a name.
\<close>

record client =
  heap :: heap
  next_addr :: addr
  cache_list :: "addr list"
  cache_map :: "string \<rightharpoonup> addr"
  indices :: "IndexSet option"
  nUpdates :: nat
  fired :: "event list"

definition Client_ctor :: "indexDef list option \<Rightarrow> heap \<Rightarrow> addr \<Rightarrow> client" where
  "Client_ctor descriptor_indices h n =
     \<lparr>heap = h, next_addr = n, cache_list = [], cache_map = Map.empty,
      indices = map_option IndexSet_ctor descriptor_indices, nUpdates = 0, fired = []\<rparr>"

definition fire :: "event list \<Rightarrow> client \<Rightarrow> client" where
  "fire es s = s\<lparr>fired := fired s @ es\<rparr>"

text \<open>A new object with the given properties, at the next free address.\<close>

definition alloc :: "props \<Rightarrow> client \<Rightarrow> addr \<times> client" where
  "alloc ps s = (next_addr s, s\<lparr>heap := (heap s)(next_addr s := ps), next_addr := Suc (next_addr s)\<rparr>)"

text \<open>
  The enumerable properties of a string are its characters under their positions; it
  also has its length.
\<close>

definition charProps :: "string \<Rightarrow> props" where
  "charProps str = map (\<lambda>i. (show_nat i, JStr [str ! i])) [0 ..< length str]"

text \<open>
  \<^verbatim>\<open>idGetter.call(this, x)\<close>: a property read, which throws on \<^verbatim>\<open>undefined\<close>
  and \<^verbatim>\<open>null\<close>, reads the characters and the length of a string and finds no own
  property on another primitive.
\<close>

definition callIdGetter :: "config \<Rightarrow> heap \<Rightarrow> jsval \<Rightarrow> error + jsval" where
  "callIdGetter cfg h x =
     (case x of
        JUndefined \<Rightarrow> Inl TypeError
      | JNull \<Rightarrow> Inl TypeError
      | JRef a \<Rightarrow> Inr (idGetter cfg (h a))
      | JStr str \<Rightarrow> Inr (idGetter cfg (charProps str @ [(''length'', JNum (of_nat (length str)))]))
      | _ \<Rightarrow> Inr (idGetter cfg []))"

subsection \<open>Wrapping\<close>

text \<open>
  The properties \<^verbatim>\<open>for (var propName in data)\<close> copies in the constructor of
  \<^verbatim>\<open>InstanceClassBase\<close>: those of an object, the characters of a string, none of
  another primitive. The properties of an object are its data: what a record carries and
  what the loops of the constructor and of the merge copy from it. The methods of an
  instance class and the property \<^verbatim>\<open>Instance\<close> that \<^verbatim>\<open>initialize\<close>
  defines read the same on every instance of a cache, whether copied or not; they are
  not among the properties, and a record is taken to have no property of their names.
\<close>

definition enumProps :: "heap \<Rightarrow> jsval \<Rightarrow> props" where
  "enumProps h data =
     (case data of
        JRef a \<Rightarrow> h a
      | JStr str \<Rightarrow> charProps str
      | _ \<Rightarrow> [])"

definition wrapObject :: "config \<Rightarrow> jsval \<Rightarrow> client \<Rightarrow> jsval \<times> client" where
  "wrapObject cfg data s =
     (if \<not> truthy data then (JNull, s)
      else
        let (obj, s1) =
              (if InstanceClass cfg
               then (let (a, s') = alloc (enumProps (heap s) data) s in (JRef a, s'))
               else (data, s))
        in (obj, fire [OnWrapObject obj, Wrapped obj] s1))"

text \<open>
  \<^verbatim>\<open>wrapObject\<close> as \<^verbatim>\<open>_applyChanges\<close> calls it, on an incoming record: the
  result is an object again.
\<close>

definition wrapRecord :: "config \<Rightarrow> addr \<Rightarrow> client \<Rightarrow> addr \<times> client" where
  "wrapRecord cfg newValues s =
     (let (obj, s1) = (if InstanceClass cfg then alloc (heap s newValues) s else (newValues, s))
      in (obj, fire [OnWrapObject (JRef obj), Wrapped (JRef obj)] s1))"

text \<open>\<^verbatim>\<open>CacheEndpointBase.getObjectNow\<close> and \<^verbatim>\<open>getObjectNowById\<close>.\<close>

definition Base_getObjectNow :: "jsval \<Rightarrow> jsval" where
  "Base_getObjectNow ident = JNull"

definition getObjectNowById :: "client \<Rightarrow> jsval \<Rightarrow> addr option" where
  "getObjectNowById s ident = cache_map s (ToString ident)"

subsection \<open>The client endpoint: merging\<close>

text \<open>The test of the inner loop of step 1: some incoming property differs.\<close>

definition hasChanged :: "config \<Rightarrow> heap \<Rightarrow> props \<Rightarrow> props \<Rightarrow> bool" where
  "hasChanged cfg h newValues obj =
     list_ex (\<lambda>propName. \<not> angular_equals cfg h (getProp newValues propName) (getProp obj propName))
       (map fst newValues)"

text \<open>The shallow copy of step 2: every incoming property is assigned to the object.\<close>

definition mergeProps :: "props \<Rightarrow> props \<Rightarrow> props" where
  "mergeProps obj newValues =
     fold (\<lambda>propName acc. setProp acc propName (getProp newValues propName)) (map fst newValues) obj"

text \<open>Step 1, the loop that keeps new records (wrapped) and changed records.\<close>

fun filterUpdates :: "config \<Rightarrow> addr list \<Rightarrow> client \<Rightarrow> addr list \<times> client" where
  "filterUpdates cfg [] s = ([], s)"
| "filterUpdates cfg (newValues # data) s =
     (case cache_map s (ToString (idGetter cfg (heap s newValues))) of
        None \<Rightarrow>
          (let (obj, s1) = wrapRecord cfg newValues s;
               (newData, s2) = filterUpdates cfg data s1
           in (obj # newData, s2))
      | Some obj \<Rightarrow>
          (let (newData, s2) = filterUpdates cfg data s
           in if hasChanged cfg (heap s) (heap s newValues) (heap s obj)
              then (newValues # newData, s2) else (newData, s2)))"

text \<open>Step 2, the loop that stores new objects and copies onto cached ones.\<close>

fun applyUpdates :: "config \<Rightarrow> addr list \<Rightarrow> client \<Rightarrow> addr list \<times> client" where
  "applyUpdates cfg [] s = ([], s)"
| "applyUpdates cfg (newValues # rest) s =
     (let k = ToString (idGetter cfg (heap s newValues)) in
      case cache_map s k of
        None \<Rightarrow>
          (let s1 = fire [OnAddedObject newValues]
                      (s\<lparr>cache_list := cache_list s @ [newValues],
                         cache_map := (cache_map s)(k \<mapsto> newValues),
                         indices := map_option
                           (\<lambda>ixs. IndexSet_addInstance ixs newValues (heap s newValues)) (indices s)\<rparr>);
               (newData, s2) = applyUpdates cfg rest s1
           in (newValues # newData, s2))
      | Some obj \<Rightarrow>
          (let s1 = s\<lparr>heap := (heap s)(obj := mergeProps (heap s obj) (heap s newValues))\<rparr>;
               (newData, s2) = applyUpdates cfg rest s1
           in (obj # newData, s2)))"

definition priv_applyChanges ::
  "config \<Rightarrow> addr list option \<Rightarrow> jsval \<Rightarrow> client \<Rightarrow> addr list \<times> client" where
  "priv_applyChanges cfg data queryInput s =
     (let (newData, s1) = (case data of None \<Rightarrow> ([], s) | Some d \<Rightarrow> filterUpdates cfg d s);
          s2 = fire [Updating newData queryInput] s1;
          (newData', s3) = (case data of None \<Rightarrow> (newData, s2) | Some d \<Rightarrow> applyUpdates cfg newData s2);
          s4 = s3\<lparr>nUpdates := Suc (nUpdates s3)\<rparr>
      in (newData', fire [OnCacheChanged newData', Updated newData' queryInput] s4))"

definition applyChange :: "config \<Rightarrow> addr \<Rightarrow> jsval \<Rightarrow> client \<Rightarrow> addr option \<times> client" where
  "applyChange cfg obj queryInput s =
     (let (newObjects, s') = priv_applyChanges cfg (Some [obj]) queryInput s
      in (case newObjects of [] \<Rightarrow> None | x # xs \<Rightarrow> Some x, s'))"


subsection \<open>The client endpoint: removing and reading\<close>

text \<open>The scan of \<^verbatim>\<open>list\<close> that splices out the first entry with the given id.\<close>

fun spliceFirst :: "(addr \<Rightarrow> bool) \<Rightarrow> addr list \<Rightarrow> addr list" where
  "spliceFirst P [] = []"
| "spliceFirst P (entry # es) = (if P entry then es else entry # spliceFirst P es)"

text \<open>The id an \<^verbatim>\<open>objectOrId\<close> argument stands for.\<close>

definition resolveId :: "config \<Rightarrow> heap \<Rightarrow> jsval \<Rightarrow> error + jsval" where
  "resolveId cfg h objectOrId =
     (if isNaN objectOrId then callIdGetter cfg h objectOrId else Inr objectOrId)"

definition removeFromCache :: "config \<Rightarrow> jsval \<Rightarrow> client \<Rightarrow> error + (addr option \<times> client)" where
  "removeFromCache cfg objectOrId s =
     (case resolveId cfg (heap s) objectOrId of
        Inl e \<Rightarrow> Inl e
      | Inr ident \<Rightarrow>
          (case cache_map s (ToString ident) of
             None \<Rightarrow> Inr (None, s)
           | Some obj \<Rightarrow>
               Inr (Some obj,
                 fire [OnRemovedObject obj, Removed obj]
                   (s\<lparr>cache_map := (cache_map s)(ToString ident := None),
                      cache_list :=
                        spliceFirst (\<lambda>entry. loose_eq (idGetter cfg (heap s entry)) ident) (cache_list s),
                      indices := map_option
                        (\<lambda>ixs. IndexSet_removeInstance ixs obj (heap s obj)) (indices s)\<rparr>))))"

text \<open>
  \<^verbatim>\<open>getObjectNow\<close> of the client endpoint returns at once: the rejected promise of
  its guard, or what \<^verbatim>\<open>map\<close> holds under the id (\<^verbatim>\<open>undefined\<close> when nothing).
\<close>

definition getObjectNow :: "client \<Rightarrow> jsval \<Rightarrow> jsval reply" where
  "getObjectNow s queryInput =
     (if isNaN queryInput then Rejected ''error.invalid.request''
      else Returned (case cache_map s (ToString queryInput) of None \<Rightarrow> JUndefined | Some obj \<Rightarrow> JRef obj))"

definition getObjectsNow :: "client \<Rightarrow> jsval \<Rightarrow> addr list" where
  "getObjectsNow s queryInput = cache_list s"

subsection \<open>The client endpoint: optimistic update and delete\<close>

text \<open>
  Modelled from the spec: lodash's \<^verbatim>\<open>_.clone\<close> is not part of the repository's
  sources; the spec says that the current object is cloned. The clone is a new object
  with the same properties; the clone of \<^verbatim>\<open>undefined\<close> is \<^verbatim>\<open>undefined\<close>.
\<close>

definition clone :: "addr option \<Rightarrow> client \<Rightarrow> addr option \<times> client" where
  "clone x s = (case x of None \<Rightarrow> (None, s) | Some obj \<Rightarrow> (let (c, s') = alloc (heap s obj) s in (Some c, s')))"

text \<open>
  The host's answer to a request is an argument: the promise resolves or is rejected
  with an error. \<^verbatim>\<open>updateObject\<close> runs up to the request, then the handler of the
  answer runs; no other call on the endpoint comes between the two.
\<close>

definition updateObject :: "config \<Rightarrow> addr \<Rightarrow> unit reply \<Rightarrow> client \<Rightarrow> error + client" where
  "updateObject cfg queryInput answer s =
     (let ident = idGetter cfg (heap s queryInput);
          (origObj, s1) = clone (getObjectNowById s ident) s;
          (r, s2) = applyChange cfg queryInput JUndefined s1;
          s3 = fire [HostRequest ''updateObject'' (cache_name cfg) (JRef queryInput)] s2
      in case answer of
           Returned u \<Rightarrow> Inr s3
         | Rejected err \<Rightarrow>
             (case origObj of
                None \<Rightarrow> Inl TypeError
              | Some orig \<Rightarrow>
                  (let (r', s4) = applyChange cfg orig JUndefined s3
                   in Inr (fire [HandleError err] s4))))"


section \<open>The host side\<close>




text \<open>
  The commands the client can call. An endpoint's methods can be overridden per cache and
  reach the store through the model of the owning component, so they are fields of the
  endpoint, functions of the store that return the store they leave; their inputs and
  results are values of any kind. \<open>hasMinRole\<close> is the answer of
  \<^verbatim>\<open>this.Instance.User.hasRole(this.getMinRole())\<close> for the calling user.

  The registry \<^verbatim>\<open>cacheEndpoints\<close> is a plain object, and the cache name, the key
  the client's argument converts to, is read from it as a property: the read finds the
  endpoint registered under the name, or else the member that every object inherits
  under that name, or else nothing. \<open>inherited\<close> says for which names the runtime of
  the host has such a member. An inherited member is truthy and has none of the methods
  of an endpoint, so calling one on it throws.
\<close>

record ('v, 'st) host_endpoint =
  ep_readObject :: "'v \<Rightarrow> 'st \<Rightarrow> 'v reply \<times> 'st"
  ep_readObjects :: "'v \<Rightarrow> 'st \<Rightarrow> 'v reply \<times> 'st"
  ep_createObject :: "'v \<Rightarrow> bool \<Rightarrow> 'st \<Rightarrow> 'v reply \<times> 'st"
  ep_updateObject :: "'v \<Rightarrow> bool \<Rightarrow> 'st \<Rightarrow> 'v reply \<times> 'st"
  ep_deleteObject :: "'v \<Rightarrow> bool \<Rightarrow> 'st \<Rightarrow> 'v reply \<times> 'st"
  ep_idGetter :: "'v \<Rightarrow> 'v"

record ('v, 'st) host =
  cacheEndpoints :: "string \<rightharpoonup> ('v, 'st) host_endpoint"
  inherited :: "string \<Rightarrow> bool"
  hasMinRole :: bool

datatype 'a slot = Own 'a | Inherited | Missing

definition getCacheEndpoint :: "('v, 'st) host \<Rightarrow> string \<Rightarrow> ('v, 'st) host_endpoint slot" where
  "getCacheEndpoint H cacheName =
     (case cacheEndpoints H cacheName of
        Some endpoint \<Rightarrow> Own endpoint
      | None \<Rightarrow> if inherited H cacheName then Inherited else Missing)"

definition fetchObject ::
  "('v, 'st) host \<Rightarrow> string \<Rightarrow> 'v \<Rightarrow> 'st \<Rightarrow> error + ('v reply \<times> 'st)" where
  "fetchObject H cacheName queryInput st =
     (case getCacheEndpoint H cacheName of
        Missing \<Rightarrow> Inr (Rejected ''error.invalid.request'', st)
      | Inherited \<Rightarrow>
          if \<not> hasMinRole H then Inr (Rejected ''error.invalid.permissions'', st)
          else Inl TypeError
      | Own dataProvider \<Rightarrow>
          if \<not> hasMinRole H then Inr (Rejected ''error.invalid.permissions'', st)
          else Inr (ep_readObject dataProvider queryInput st))"

definition fetchObjects ::
  "('v, 'st) host \<Rightarrow> string \<Rightarrow> 'v \<Rightarrow> 'st \<Rightarrow> error + ('v reply \<times> 'st)" where
  "fetchObjects H cacheName queryInput st =
     (case getCacheEndpoint H cacheName of
        Missing \<Rightarrow> Inr (Rejected ''error.invalid.request'', st)
      | Inherited \<Rightarrow>
          if \<not> hasMinRole H then Inr (Rejected ''error.invalid.permissions'', st)
          else Inl TypeError
      | Own dataProvider \<Rightarrow>
          if \<not> hasMinRole H then Inr (Rejected ''error.invalid.permissions'', st)
          else Inr (ep_readObjects dataProvider queryInput st))"

definition createObject ::
  "('v, 'st) host \<Rightarrow> string \<Rightarrow> 'v \<Rightarrow> 'st \<Rightarrow> error + ('v reply \<times> 'st)" where
  "createObject H cacheName objectValues st =
     (case getCacheEndpoint H cacheName of
        Missing \<Rightarrow> Inr (Rejected ''error.invalid.request'', st)
      | Inherited \<Rightarrow>
          if \<not> hasMinRole H then Inr (Rejected ''error.invalid.permissions'', st)
          else Inl TypeError
      | Own dataProvider \<Rightarrow>
          if \<not> hasMinRole H then Inr (Rejected ''error.invalid.permissions'', st)
          else (case ep_createObject dataProvider objectValues True st of
                  (Returned newObject, st') \<Rightarrow> Inr (Returned (ep_idGetter dataProvider newObject), st')
                | (Rejected err, st') \<Rightarrow> Inr (Rejected err, st')))"

definition host_updateObject ::
  "('v, 'st) host \<Rightarrow> string \<Rightarrow> 'v \<Rightarrow> 'st \<Rightarrow> error + ('v reply \<times> 'st)" where
  "host_updateObject H cacheName objectValues st =
     (case getCacheEndpoint H cacheName of
        Missing \<Rightarrow> Inr (Rejected ''error.invalid.request'', st)
      | Inherited \<Rightarrow>
          if \<not> hasMinRole H then Inr (Rejected ''error.invalid.permissions'', st)
          else Inl TypeError
      | Own dataProvider \<Rightarrow>
          if \<not> hasMinRole H then Inr (Rejected ''error.invalid.permissions'', st)
          else Inr (ep_updateObject dataProvider objectValues True st))"

definition host_deleteObject ::
  "('v, 'st) host \<Rightarrow> string \<Rightarrow> 'v \<Rightarrow> 'st \<Rightarrow> error + ('v reply \<times> 'st)" where
  "host_deleteObject H cacheName objId st =
     (case getCacheEndpoint H cacheName of
        Missing \<Rightarrow> Inr (Rejected ''error.invalid.request'', st)
      | Inherited \<Rightarrow>
          if \<not> hasMinRole H then Inr (Rejected ''error.invalid.permissions'', st)
          else Inl TypeError
      | Own dataProvider \<Rightarrow>
          if \<not> hasMinRole H then Inr (Rejected ''error.invalid.permissions'', st)
          else Inr (ep_deleteObject dataProvider objId True st))"

section \<open>Example data\<close>

text \<open>
  A host with one cache, \<^verbatim>\<open>Users\<close>, over a store that counts the calls that
  reach it; the endpoint's methods answer with their input.
\<close>

definition counting_endpoint :: "(jsval, nat) host_endpoint" where
  "counting_endpoint =
     \<lparr>ep_readObject = (\<lambda>q st. (Returned q, Suc st)),
      ep_readObjects = (\<lambda>q st. (Returned q, Suc st)),
      ep_createObject = (\<lambda>q d st. (Returned q, Suc st)),
      ep_updateObject = (\<lambda>q d st. (Returned q, Suc st)),
      ep_deleteObject = (\<lambda>q d st. (Returned q, Suc st)),
      ep_idGetter = (\<lambda>obj. obj)\<rparr>"

definition example_host :: "bool \<Rightarrow> (jsval, nat) host" where
  "example_host role =
     \<lparr>cacheEndpoints = [''Users'' \<mapsto> counting_endpoint],
      inherited = (\<lambda>name. name \<in> set Object_prototype_names),
      hasMinRole = role\<rparr>"

text \<open>
  The \<^verbatim>\<open>Users\<close> cache of the examples: the id is the property \<^verbatim>\<open>id\<close>, there
  is no instance class, and values are compared as primitives (identical, or both
  \<^verbatim>\<open>NaN\<close>).
\<close>

definition users_cfg :: config where
  "users_cfg =
     \<lparr>cache_name = ''Users'', idGetter = (\<lambda>ps. getProp ps ''id''), InstanceClass = False,
      angular_equals = (\<lambda>h a b. a = b)\<rparr>"

definition empty_heap :: heap where
  "empty_heap = (\<lambda>a. [])"

definition empty_client :: client where
  "empty_client = Client_ctor None empty_heap 0"

text \<open>
  The scenario of the \<^verbatim>\<open>Users\<close> cache with a unique index on \<^verbatim>\<open>email\<close>. Three
  records have arrived: \<^verbatim>\<open>{id: 1, email: "a@x.com"}\<close> twice (addresses 10 and 11) and
  \<^verbatim>\<open>{id: 1, email: "b@x.com"}\<close> (address 12). The first is inserted, the second
  merged, then the third.
\<close>

definition users_index_defs :: "indexDef list" where
  "users_index_defs = [\<lparr>idx_name = [], idx_key = [''email''], idx_unique = True\<rparr>]"

definition users_heap :: heap where
  "users_heap =
     (\<lambda>a. [])(10 := [(''id'', JNum 1), (''email'', JStr ''a@x.com'')],
              11 := [(''id'', JNum 1), (''email'', JStr ''a@x.com'')],
              12 := [(''id'', JNum 1), (''email'', JStr ''b@x.com'')])"

definition users_start :: client where
  "users_start = Client_ctor (Some users_index_defs) users_heap 13"

definition users_inserted :: client where
  "users_inserted = snd (priv_applyChanges users_cfg (Some [10]) JUndefined users_start)"

definition users_remerged :: client where
  "users_remerged = snd (priv_applyChanges users_cfg (Some [11]) JUndefined users_inserted)"

definition users_changed :: client where
  "users_changed = snd (priv_applyChanges users_cfg (Some [12]) JUndefined users_remerged)"

definition email_index :: index where
  "email_index =
     \<lparr>indexDef = \<lparr>idx_name = ''email'', idx_key = [''email''], idx_unique = True\<rparr>,
      root = [[''a@x.com''] \<mapsto> One 10]\<rparr>"

text \<open>
  The scenario of a rejected update: \<^verbatim>\<open>{id: 1, name: "Ann"}\<close> (address 20) is
  cached; the update \<^verbatim>\<open>{id: 1, name: "X", nick: "x"}\<close> (address 21) renames it
  and brings a property the cached object does not have.
\<close>

definition profile_heap :: heap where
  "profile_heap =
     (\<lambda>a. [])(20 := [(''id'', JNum 1), (''name'', JStr ''Ann'')],
              21 := [(''id'', JNum 1), (''name'', JStr ''X''), (''nick'', JStr ''x'')])"

definition profile_cached :: client where
  "profile_cached =
     snd (priv_applyChanges users_cfg (Some [20]) JUndefined (Client_ctor None profile_heap 22))"


text \<open>
  The states the two scenarios end in: after the rejected update of the profile, and
  after the user was removed from the cache whose index had gone stale.
\<close>

definition profile_after :: client where
  "profile_after =
     profile_cached\<lparr>
       heap := profile_heap
         (22 := [(''id'', JNum 1), (''name'', JStr ''Ann'')],
          20 := [(''id'', JNum 1), (''name'', JStr ''Ann''), (''nick'', JStr ''x'')]),
       next_addr := 23,
       nUpdates := 3,
       fired := fired profile_cached @
         [Updating [21] JUndefined, OnCacheChanged [20], Updated [20] JUndefined,
          HostRequest ''updateObject'' ''Users'' (JRef 21),
          Updating [22] JUndefined, OnCacheChanged [20], Updated [20] JUndefined,
          HandleError ''error.invalid.permissions'']\<rparr>"

definition users_removed :: client where
  "users_removed =
     users_changed\<lparr>
       cache_list := [],
       cache_map := Map.empty,
       fired := fired users_changed @ [OnRemovedObject 10, Removed 10]\<rparr>"



section \<open>Properties of the host side\<close>




text \<open>
  C8, as the claim states it, fails: a caller without the minimum role who names an
  unknown cache gets \<^verbatim>\<open>error.invalid.request\<close>, not a permissions failure,
  because the cache name is looked up first.
\<close>

theorem public_unknown_cache_without_role:
  "\<not> hasMinRole (example_host False) \<and>
   cacheEndpoints (example_host False) ''Nope'' = None \<and>
   \<not> inherited (example_host False) ''Nope'' \<and>
   fetchObject (example_host False) ''Nope'' (JNum 1) 0 = Inr (Rejected ''error.invalid.request'', 0) \<and>
   host_deleteObject (example_host False) ''Nope'' (JNum 1) 0 = Inr (Rejected ''error.invalid.request'', 0)"
  by (simp add: example_host_def fetchObject_def host_deleteObject_def getCacheEndpoint_def
      Object_prototype_names_def)

text \<open>
  A name that is not registered but that every object inherits, such as
  \<^verbatim>\<open>constructor\<close>, is not taken for unknown: the member found under it passes the
  test for a missing endpoint, the role is checked, and with the role the call of the
  endpoint's method on that member throws.
\<close>

lemma public_inherited_name:
  assumes "cacheEndpoints H cacheName = None" and "inherited H cacheName"
  shows "fetchObject H cacheName x st =
           (if hasMinRole H then Inl TypeError else Inr (Rejected ''error.invalid.permissions'', st))"
    and "fetchObjects H cacheName x st =
           (if hasMinRole H then Inl TypeError else Inr (Rejected ''error.invalid.permissions'', st))"
    and "createObject H cacheName x st =
           (if hasMinRole H then Inl TypeError else Inr (Rejected ''error.invalid.permissions'', st))"
    and "host_updateObject H cacheName x st =
           (if hasMinRole H then Inl TypeError else Inr (Rejected ''error.invalid.permissions'', st))"
    and "host_deleteObject H cacheName x st =
           (if hasMinRole H then Inl TypeError else Inr (Rejected ''error.invalid.permissions'', st))"
  using assms
  by (simp_all add: fetchObject_def fetchObjects_def createObject_def host_updateObject_def
      host_deleteObject_def getCacheEndpoint_def)

lemma public_constructor_example:
  "fetchObject (example_host False) ''constructor'' (JNum 1) 0
     = Inr (Rejected ''error.invalid.permissions'', 0)"
  "fetchObject (example_host True) ''constructor'' (JNum 1) 0 = Inl TypeError"
  by (simp_all add: example_host_def fetchObject_def getCacheEndpoint_def Object_prototype_names_def)

text \<open>
  C8, amended. For each of the five commands and every input: the cache name is looked up
  first, and a name under which the registry has nothing, neither a cache nor an
  inherited member, yields \<^verbatim>\<open>error.invalid.request\<close> whatever the role; the name
  of a registered cache with an insufficient role yields
  \<^verbatim>\<open>error.invalid.permissions\<close>; in both cases the store is left as it was and no
  method of the endpoint runs. Only the name of a registered cache with a sufficient role
  delegates to the endpoint, and the answer is the endpoint's; of a created object only
  the id is sent back.
\<close>

theorem public_commands_gated:
  "(cacheEndpoints H cacheName = None \<and> \<not> inherited H cacheName \<longrightarrow>
      fetchObject H cacheName x st = Inr (Rejected ''error.invalid.request'', st) \<and>
      fetchObjects H cacheName x st = Inr (Rejected ''error.invalid.request'', st) \<and>
      createObject H cacheName x st = Inr (Rejected ''error.invalid.request'', st) \<and>
      host_updateObject H cacheName x st = Inr (Rejected ''error.invalid.request'', st) \<and>
      host_deleteObject H cacheName x st = Inr (Rejected ''error.invalid.request'', st)) \<and>
   (\<forall>dataProvider. cacheEndpoints H cacheName = Some dataProvider \<and> \<not> hasMinRole H \<longrightarrow>
      fetchObject H cacheName x st = Inr (Rejected ''error.invalid.permissions'', st) \<and>
      fetchObjects H cacheName x st = Inr (Rejected ''error.invalid.permissions'', st) \<and>
      createObject H cacheName x st = Inr (Rejected ''error.invalid.permissions'', st) \<and>
      host_updateObject H cacheName x st = Inr (Rejected ''error.invalid.permissions'', st) \<and>
      host_deleteObject H cacheName x st = Inr (Rejected ''error.invalid.permissions'', st)) \<and>
   (\<forall>dataProvider. cacheEndpoints H cacheName = Some dataProvider \<and> hasMinRole H \<longrightarrow>
      fetchObject H cacheName x st = Inr (ep_readObject dataProvider x st) \<and>
      fetchObjects H cacheName x st = Inr (ep_readObjects dataProvider x st) \<and>
      createObject H cacheName x st =
        Inr (case ep_createObject dataProvider x True st of
               (Returned newObject, st') \<Rightarrow> (Returned (ep_idGetter dataProvider newObject), st')
             | (Rejected err, st') \<Rightarrow> (Rejected err, st')) \<and>
      host_updateObject H cacheName x st = Inr (ep_updateObject dataProvider x True st) \<and>
      host_deleteObject H cacheName x st = Inr (ep_deleteObject dataProvider x True st))"
  by (auto simp: fetchObject_def fetchObjects_def createObject_def host_updateObject_def
      host_deleteObject_def getCacheEndpoint_def split: prod.splits reply.splits)

theorem public_commands_gated_witness:
  "fetchObject (example_host True) ''Nope'' (JNum 1) 0 = Inr (Rejected ''error.invalid.request'', 0) \<and>
   host_deleteObject (example_host False) ''Nope'' (JNum 1) 0 = Inr (Rejected ''error.invalid.request'', 0) \<and>
   fetchObject (example_host False) ''Users'' (JNum 1) 0 = Inr (Rejected ''error.invalid.permissions'', 0) \<and>
   createObject (example_host False) ''Users'' (JNum 1) 0 = Inr (Rejected ''error.invalid.permissions'', 0) \<and>
   fetchObject (example_host True) ''Users'' (JNum 1) 0 = Inr (Returned (JNum 1), 1)"
proof -
  have unknown: "cacheEndpoints (example_host r) ''Nope'' = None" "\<not> inherited (example_host r) ''Nope''" for r
    by (simp_all add: example_host_def Object_prototype_names_def)
  have known: "cacheEndpoints (example_host r) ''Users'' = Some counting_endpoint" for r
    by (simp add: example_host_def)
  have role: "hasMinRole (example_host r) = r" for r
    by (simp add: example_host_def)
  show ?thesis
    using public_commands_gated [of "example_host True" "''Nope''" "JNum 1" 0]
      public_commands_gated [of "example_host False" "''Nope''" "JNum 1" 0]
      public_commands_gated [of "example_host False" "''Users''" "JNum 1" 0]
      public_commands_gated [of "example_host True" "''Users''" "JNum 1" 0]
    by (simp add: unknown known role counting_endpoint_def)
qed

section \<open>Properties of the shared base and of reading\<close>

subsection \<open>The keys of values that convert to a number\<close>

lemma digit_is_digit: "digit d \<in> set ''0123456789''"
proof -
  have "d mod 10 < length ''0123456789''"
    by simp
  then have "''0123456789'' ! (d mod 10) \<in> set ''0123456789''"
    by (rule nth_mem)
  then show ?thesis
    by (simp only: digit_def)
qed

lemma hd_show_nat: "show_nat n \<noteq> [] \<and> hd (show_nat n) \<in> set ''0123456789''"
proof (induction n rule: show_nat.induct)
  case (1 n)
  show ?case
  proof (cases "n < 10")
    case True
    then have "show_nat n = [digit n]"
      by (subst show_nat.simps) simp
    with digit_is_digit [of n] show ?thesis
      by simp
  next
    case False
    then have "show_nat n = show_nat (n div 10) @ [digit (n mod 10)]"
      by (subst show_nat.simps) simp
    with 1 False show ?thesis
      by simp
  qed
qed

lemma hd_show_int: "show_int i \<noteq> [] \<and> hd (show_int i) \<in> set ''-0123456789''"
  using hd_show_nat [of "nat i"] hd_show_nat [of "nat (- i)"]
  by (auto simp: show_int_def)

lemma inherited_names_not_numeric:
  "list_all (\<lambda>name. StringToNumber name = None \<and> hd name \<notin> set ''-0123456789'')
     Object_prototype_names"
  by code_simp

lemma numeric_key_not_inherited:
  assumes "\<not> isNaN x"
  shows "ToString x \<notin> set Object_prototype_names"
proof
  assume mem: "ToString x \<in> set Object_prototype_names"
  with inherited_names_not_numeric
  have nn: "StringToNumber (ToString x) = None" "hd (ToString x) \<notin> set ''-0123456789''"
    by (auto simp: list_all_iff)
  show False
  proof (cases x)
    case (JNum n)
    with nn(2) hd_show_int [of "sint n"] show ?thesis by simp
  next
    case (JStr s)
    with nn(1) assms show ?thesis by simp
  next
    case JNull
    with mem show ?thesis by (simp add: Object_prototype_names_def)
  next
    case (JBool b)
    with mem show ?thesis by (simp add: Object_prototype_names_def split: if_splits)
  qed (use assms in simp_all)
qed

subsection \<open>Reading from the cache\<close>

text \<open>
  C9, as the claim states it, fails: for an input that does not resolve to a number the
  client's \<^verbatim>\<open>getObjectNow\<close> returns a rejected promise, which is neither
  \<^verbatim>\<open>null\<close> nor \<^verbatim>\<open>undefined\<close>, although nothing is cached under that input.
\<close>

theorem getObjectNow_not_a_number:
  "cache_map empty_client (ToString (JStr ''abc'')) = None \<and>
   getObjectNow empty_client (JStr ''abc'') = Rejected ''error.invalid.request'' \<and>
   getObjectNow empty_client (JStr ''abc'') \<noteq> Returned JNull \<and>
   getObjectNow empty_client (JStr ''abc'') \<noteq> Returned JUndefined"
proof -
  have "isNaN (JStr ''abc'')"
    by code_simp
  then show ?thesis
    by (simp add: getObjectNow_def empty_client_def Client_ctor_def)
qed

text \<open>
  C9, amended. The client's \<^verbatim>\<open>getObjectNow\<close> is a function of the endpoint's
  \<^verbatim>\<open>map\<close> alone: it sends nothing and changes nothing. For an input of which
  \<^verbatim>\<open>isNaN\<close> holds (it does not convert to a number) it returns a promise rejected
  with \<^verbatim>\<open>error.invalid.request\<close>, which is neither \<^verbatim>\<open>null\<close> nor
  \<^verbatim>\<open>undefined\<close>. For every other input it returns what \<^verbatim>\<open>map\<close> holds under
  the input's key: the key is not the name of an inherited member, so this is the object
  cached under it, or \<^verbatim>\<open>undefined\<close> on a miss. The base class's
  \<^verbatim>\<open>getObjectNow\<close> returns \<^verbatim>\<open>null\<close> for every input.
\<close>

theorem getObjectNow_cache_only:
  "(isNaN queryInput \<longrightarrow>
      getObjectNow s queryInput = Rejected ''error.invalid.request'') \<and>
   (\<not> isNaN queryInput \<longrightarrow> ToString queryInput \<notin> set Object_prototype_names) \<and>
   (\<not> isNaN queryInput \<and> cache_map s (ToString queryInput) = None \<longrightarrow>
      getObjectNow s queryInput = Returned JUndefined) \<and>
   (\<forall>obj. \<not> isNaN queryInput \<and> cache_map s (ToString queryInput) = Some obj \<longrightarrow>
      getObjectNow s queryInput = Returned (JRef obj)) \<and>
   (cache_map s' = cache_map s \<longrightarrow> getObjectNow s' queryInput = getObjectNow s queryInput) \<and>
   Base_getObjectNow queryInput = JNull"
  using numeric_key_not_inherited [of queryInput]
  by (simp add: getObjectNow_def Base_getObjectNow_def)

theorem getObjectNow_cache_only_witness:
  "getObjectNow empty_client (JRef 10) = Rejected ''error.invalid.request'' \<and>
   getObjectNow empty_client (JStr ''1.5'') = Returned JUndefined \<and>
   getObjectNow empty_client (JNum 5) = Returned JUndefined \<and>
   getObjectNow (empty_client\<lparr>cache_map := [''5'' \<mapsto> 2]\<rparr>) (JNum 5) = Returned (JRef 2) \<and>
   getObjectNow (empty_client\<lparr>nUpdates := 3\<rparr>) (JNum 5) = getObjectNow empty_client (JNum 5) \<and>
   Base_getObjectNow (JNum 5) = JNull"
proof -
  have five: "show_int 5 = ''5''"
    by (simp add: show_int_def show_nat.simps digit_def)
  have frac: "StringToNumber ''1.5'' = Some (Finite False 15 (- 1))"
    by code_simp
  have none: "cache_map empty_client k = None" for k
    by (simp add: empty_client_def Client_ctor_def)
  show ?thesis
    using getObjectNow_cache_only [of "JRef 10" empty_client empty_client]
      getObjectNow_cache_only [of "JStr ''1.5''" empty_client empty_client]
      getObjectNow_cache_only [of "JNum 5" empty_client "empty_client\<lparr>nUpdates := 3\<rparr>"]
      getObjectNow_cache_only [of "JNum 5" "empty_client\<lparr>cache_map := [''5'' \<mapsto> 2]\<rparr>" empty_client]
    by (simp add: five frac none)
qed

text \<open>
  C10, as the claim states it, fails: \<^verbatim>\<open>wrapObject\<close> tests its argument for
  truth, so a number 0 (a non-null argument) is answered with \<^verbatim>\<open>null\<close> and no
  \<^verbatim>\<open>wrapped\<close> event.
\<close>

theorem wrapObject_zero:
  "JNum 0 \<noteq> JNull \<and> JNum 0 \<noteq> JUndefined \<and>
   wrapObject users_cfg (JNum 0) empty_client = (JNull, empty_client) \<and>
   fired (snd (wrapObject users_cfg (JNum 0) empty_client)) = []"
  by (simp add: wrapObject_def empty_client_def Client_ctor_def)

text \<open>
  C10, amended. \<^verbatim>\<open>wrapObject\<close>, which both endpoints inherit, returns
  \<^verbatim>\<open>null\<close> for every argument that is not truthy (\<^verbatim>\<open>null\<close>,
  \<^verbatim>\<open>undefined\<close>, \<^verbatim>\<open>false\<close>, 0, \<^verbatim>\<open>NaN\<close>, the empty string): it
  constructs nothing, calls no hook and fires no event. For every truthy argument, so
  for every object, it calls \<^verbatim>\<open>onWrapObject\<close> once and then fires
  \<^verbatim>\<open>wrapped\<close> once, both with the object it returns; without an instance class
  that object is the argument and nothing is constructed.
\<close>

theorem wrapObject_notifies_once:
  "wrapObject cfg JNull s = (JNull, s) \<and>
   wrapObject cfg JUndefined s = (JNull, s) \<and>
   (\<not> truthy data \<longrightarrow> wrapObject cfg data s = (JNull, s)) \<and>
   (truthy data \<longrightarrow>
      fired (snd (wrapObject cfg data s))
        = fired s @ [OnWrapObject (fst (wrapObject cfg data s)), Wrapped (fst (wrapObject cfg data s))]) \<and>
   (truthy data \<and> \<not> InstanceClass cfg \<longrightarrow>
      fst (wrapObject cfg data s) = data \<and>
      heap (snd (wrapObject cfg data s)) = heap s \<and>
      next_addr (snd (wrapObject cfg data s)) = next_addr s)"
  by (simp add: wrapObject_def fire_def alloc_def Let_def split: prod.splits)

theorem wrapObject_notifies_once_witness:
  "wrapObject users_cfg (JStr []) empty_client = (JNull, empty_client) \<and>
   fired (snd (wrapObject users_cfg (JRef 10) empty_client)) = [OnWrapObject (JRef 10), Wrapped (JRef 10)] \<and>
   fst (wrapObject users_cfg (JRef 10) empty_client) = JRef 10 \<and>
   fired (snd (wrapObject (users_cfg\<lparr>InstanceClass := True\<rparr>) (JRef 10) (empty_client\<lparr>next_addr := 7\<rparr>)))
     = [OnWrapObject (JRef 7), Wrapped (JRef 7)]"
proof -
  have a: "fst (wrapObject (users_cfg\<lparr>InstanceClass := True\<rparr>) (JRef 10) (empty_client\<lparr>next_addr := 7\<rparr>)) = JRef 7"
    by (simp add: wrapObject_def alloc_def users_cfg_def empty_client_def Client_ctor_def)
  have b: "fired empty_client = []" "\<not> InstanceClass users_cfg"
    by (simp_all add: empty_client_def Client_ctor_def users_cfg_def)
  show ?thesis
    using wrapObject_notifies_once [of users_cfg empty_client "JStr []"]
      wrapObject_notifies_once [of users_cfg empty_client "JRef 10"]
      wrapObject_notifies_once [of "users_cfg\<lparr>InstanceClass := True\<rparr>" "empty_client\<lparr>next_addr := 7\<rparr>" "JRef 10"]
    by (simp add: a b)
qed

section \<open>Properties of the client endpoint\<close>

subsection \<open>Property lists\<close>

lemma getProp_setProp:
  "getProp (setProp ps p v) q = (if q = p then v else getProp ps q)"
  by (induction ps) (auto simp: getProp_def)

lemma getProp_fold_setProp:
  "getProp (fold (\<lambda>propName acc. setProp acc propName (f propName)) names ps) q
     = (if q \<in> set names then f q else getProp ps q)"
  by (induction names arbitrary: ps) (auto simp: getProp_setProp)

lemma getProp_mergeProps:
  "getProp (mergeProps obj newValues) q
     = (if q \<in> fst ` set newValues then getProp newValues q else getProp obj q)"
  by (simp add: mergeProps_def getProp_fold_setProp)

subsection \<open>Merging one record\<close>

lemma applyChange_cached:
  assumes "cache_map s (ToString (idGetter cfg (heap s r))) = Some obj"
  shows "priv_applyChanges cfg (Some [r]) q s =
     (if hasChanged cfg (heap s) (heap s r) (heap s obj)
      then ([obj], s\<lparr>heap := (heap s)(obj := mergeProps (heap s obj) (heap s r)),
                     nUpdates := Suc (nUpdates s),
                     fired := fired s @ [Updating [r] q, OnCacheChanged [obj], Updated [obj] q]\<rparr>)
      else ([], s\<lparr>nUpdates := Suc (nUpdates s),
                  fired := fired s @ [Updating [] q, OnCacheChanged [], Updated [] q]\<rparr>))"
  using assms by (simp add: priv_applyChanges_def fire_def)

lemma applyChange_uncached:
  assumes "cache_map s (ToString (idGetter cfg (heap s r))) = None"
  shows "priv_applyChanges cfg (Some [r]) q s =
     (let w = (if InstanceClass cfg then next_addr s else r) in
      ([w], s\<lparr>heap := (if InstanceClass cfg then (heap s)(next_addr s := heap s r) else heap s),
               next_addr := (if InstanceClass cfg then Suc (next_addr s) else next_addr s),
               cache_list := cache_list s @ [w],
               cache_map := (cache_map s)(ToString (idGetter cfg (heap s r)) \<mapsto> w),
               indices := map_option (\<lambda>ixs. IndexSet_addInstance ixs w (heap s r)) (indices s),
               nUpdates := Suc (nUpdates s),
               fired := fired s @ [OnWrapObject (JRef w), Wrapped (JRef w), Updating [w] q,
                                   OnAddedObject w, OnCacheChanged [w], Updated [w] q]\<rparr>))"
  using assms
  by (simp add: priv_applyChanges_def fire_def wrapRecord_def alloc_def Let_def)

subsection \<open>The example states\<close>

lemma show_int_1: "show_int 1 = ''1''"
  by (simp add: show_int_def show_nat.simps digit_def)

lemma users_cfg_simps:
  "idGetter users_cfg ps = getProp ps ''id''"
  "InstanceClass users_cfg = False"
  "angular_equals users_cfg h a b = (a = b)"
  "cache_name users_cfg = ''Users''"
  by (simp_all add: users_cfg_def)

lemma users_heap_simps:
  "users_heap 10 = [(''id'', JNum 1), (''email'', JStr ''a@x.com'')]"
  "users_heap 11 = [(''id'', JNum 1), (''email'', JStr ''a@x.com'')]"
  "users_heap 12 = [(''id'', JNum 1), (''email'', JStr ''b@x.com'')]"
  by (simp_all add: users_heap_def)

lemma users_inserted_eq:
  "users_inserted =
     \<lparr>heap = users_heap, next_addr = 13, cache_list = [10], cache_map = [''1'' \<mapsto> 10],
      indices = Some [email_index], nUpdates = 1,
      fired = [OnWrapObject (JRef 10), Wrapped (JRef 10), Updating [10] JUndefined,
               OnAddedObject 10, OnCacheChanged [10], Updated [10] JUndefined]\<rparr>"
proof -
  have "cache_map users_start (ToString (idGetter users_cfg (heap users_start 10))) = None"
    by (simp add: users_start_def Client_ctor_def)
  then show ?thesis
    unfolding users_inserted_def
    by (simp add: applyChange_uncached users_cfg_simps)
       (simp add: users_start_def Client_ctor_def users_heap_simps getProp_def show_int_1
          IndexSet_ctor_def properName_def users_index_defs_def IndexSet_addInstance_def sharers_def
          Index_addInstance_def
          objPath_def leafPropertyName_def email_index_def)
qed

lemma users_inserted_simps:
  "heap users_inserted = users_heap"
  "cache_map users_inserted = [''1'' \<mapsto> 10]"
  "cache_list users_inserted = [10]"
  "indices users_inserted = Some [email_index]"
  "nUpdates users_inserted = 1"
  by (simp_all add: users_inserted_eq)

lemma users_remerged_eq:
  "users_remerged =
     users_inserted\<lparr>nUpdates := 2,
       fired := fired users_inserted @ [Updating [] JUndefined, OnCacheChanged [], Updated [] JUndefined]\<rparr>"
proof -
  have "cache_map users_inserted (ToString (idGetter users_cfg (heap users_inserted 11))) = Some 10"
    by (simp add: users_inserted_simps users_cfg_simps users_heap_simps getProp_def show_int_1)
  then show ?thesis
    unfolding users_remerged_def
    by (simp add: applyChange_cached)
       (simp add: users_inserted_simps users_cfg_simps users_heap_simps hasChanged_def getProp_def)
qed

lemma users_changed_eq:
  "users_changed =
     users_remerged\<lparr>heap := users_heap(10 := [(''id'', JNum 1), (''email'', JStr ''b@x.com'')]),
       nUpdates := 3,
       fired := fired users_remerged @ [Updating [12] JUndefined, OnCacheChanged [10], Updated [10] JUndefined]\<rparr>"
proof -
  have "cache_map users_remerged (ToString (idGetter users_cfg (heap users_remerged 12))) = Some 10"
    by (simp add: users_remerged_eq users_inserted_simps users_cfg_simps users_heap_simps
        getProp_def show_int_1)
  then show ?thesis
    unfolding users_changed_def
    by (simp add: applyChange_cached)
       (simp add: users_remerged_eq users_inserted_simps users_cfg_simps users_heap_simps
          hasChanged_def getProp_def mergeProps_def)
qed

subsection \<open>Merging a record that changes nothing\<close>

text \<open>
  C3, as the claim states it, fails in its second half: merging
  \<^verbatim>\<open>{id: 1, email: "a@x.com"}\<close> a second time yields an empty set of changes, yet
  \<^verbatim>\<open>nUpdates\<close> goes from 1 to 2 and \<^verbatim>\<open>updated\<close> fires, with the empty set.
\<close>

theorem identical_merge_still_counts:
  "\<not> hasChanged users_cfg (heap users_inserted) (heap users_inserted 11) (heap users_inserted 10) \<and>
   fst (priv_applyChanges users_cfg (Some [11]) JUndefined users_inserted) = [] \<and>
   nUpdates users_inserted = 1 \<and>
   nUpdates (snd (priv_applyChanges users_cfg (Some [11]) JUndefined users_inserted)) = 2 \<and>
   fired (snd (priv_applyChanges users_cfg (Some [11]) JUndefined users_inserted))
     = fired users_inserted @ [Updating [] JUndefined, OnCacheChanged [], Updated [] JUndefined]"
proof -
  have key: "cache_map users_inserted (ToString (idGetter users_cfg (heap users_inserted 11))) = Some 10"
    by (simp add: users_inserted_simps users_cfg_simps users_heap_simps getProp_def show_int_1)
  have same: "\<not> hasChanged users_cfg (heap users_inserted) (heap users_inserted 11) (heap users_inserted 10)"
    by (simp add: users_inserted_simps users_cfg_simps users_heap_simps hasChanged_def getProp_def)
  show ?thesis
    using same by (simp add: applyChange_cached [OF key] users_inserted_simps)
qed

text \<open>
  C3, amended. Merging a record whose every property is deep-equal to the property of
  the object cached under its id produces no entry in the set of changes: the delta
  returned and passed to the events is empty, and the objects, \<^verbatim>\<open>list\<close>,
  \<^verbatim>\<open>map\<close> and the indices stay as they are. The merge is still counted:
  \<^verbatim>\<open>nUpdates\<close> grows by one, and \<^verbatim>\<open>updating\<close>, \<^verbatim>\<open>onCacheChanged\<close> and
  \<^verbatim>\<open>updated\<close> each run once with the empty delta.
\<close>

theorem identical_merge_changes_nothing:
  assumes "cache_map s (ToString (idGetter cfg (heap s r))) = Some obj"
    and "\<forall>propName \<in> fst ` set (heap s r).
           angular_equals cfg (heap s) (getProp (heap s r) propName) (getProp (heap s obj) propName)"
  shows "priv_applyChanges cfg (Some [r]) q s =
           ([], s\<lparr>nUpdates := Suc (nUpdates s),
                   fired := fired s @ [Updating [] q, OnCacheChanged [], Updated [] q]\<rparr>)"
proof -
  have "\<not> hasChanged cfg (heap s) (heap s r) (heap s obj)"
    using assms(2) by (auto simp: hasChanged_def list_ex_iff)
  then show ?thesis
    by (simp add: applyChange_cached [OF assms(1)])
qed

theorem identical_merge_changes_nothing_witness:
  "priv_applyChanges users_cfg (Some [11]) JUndefined users_inserted =
     ([], users_inserted\<lparr>nUpdates := Suc (nUpdates users_inserted),
            fired := fired users_inserted @ [Updating [] JUndefined, OnCacheChanged [], Updated [] JUndefined]\<rparr>)"
proof -
  have key: "cache_map users_inserted (ToString (idGetter users_cfg (heap users_inserted 11))) = Some 10"
    by (simp add: users_inserted_simps users_cfg_simps users_heap_simps getProp_def show_int_1)
  have same: "\<forall>propName \<in> fst ` set (heap users_inserted 11).
      angular_equals users_cfg (heap users_inserted) (getProp (heap users_inserted 11) propName)
        (getProp (heap users_inserted 10) propName)"
    by (simp add: users_inserted_simps users_cfg_simps users_heap_simps getProp_def)
  show ?thesis
    by (rule identical_merge_changes_nothing [OF key same])
qed

subsection \<open>Merging a record that changes an indexed property\<close>

text \<open>
  C4. In the scenario, the merge of \<^verbatim>\<open>{id: 1, email: "b@x.com"}\<close> fires
  \<^verbatim>\<open>updated\<close> once and the cached object has the new address, but step 2 of
  \<^verbatim>\<open>_applyChanges\<close> only copies properties onto a cached object and leaves the
  indices alone: the unique index on \<^verbatim>\<open>email\<close> still returns the object for
  \<^verbatim>\<open>"a@x.com"\<close> and returns nothing for \<^verbatim>\<open>"b@x.com"\<close>.
\<close>

theorem email_change_leaves_index_stale:
  "cache_map users_changed ''1'' = Some 10 \<and>
   getProp (heap users_changed 10) ''email'' = JStr ''b@x.com'' \<and>
   fired users_changed
     = fired users_remerged @ [Updating [12] JUndefined, OnCacheChanged [10], Updated [10] JUndefined] \<and>
   indices users_changed = Some [email_index] \<and>
   fst (Index_get email_index [JStr ''a@x.com'']) = Some (One 10) \<and>
   fst (Index_get email_index [JStr ''b@x.com'']) = None"
  by (simp add: users_changed_eq users_remerged_eq users_inserted_simps getProp_def
      Index_get_def argPath_def email_index_def)

subsection \<open>What the two loops of the merge leave alone\<close>

lemma wrapRecord_storage:
  "cache_map (snd (wrapRecord cfg r s)) = cache_map s"
  "cache_list (snd (wrapRecord cfg r s)) = cache_list s"
  "indices (snd (wrapRecord cfg r s)) = indices s"
  "nUpdates (snd (wrapRecord cfg r s)) = nUpdates s"
  by (simp_all add: wrapRecord_def alloc_def fire_def Let_def split: prod.splits)

lemma filterUpdates_storage:
  "cache_map (snd (filterUpdates cfg d s)) = cache_map s \<and>
   cache_list (snd (filterUpdates cfg d s)) = cache_list s \<and>
   indices (snd (filterUpdates cfg d s)) = indices s \<and>
   nUpdates (snd (filterUpdates cfg d s)) = nUpdates s"
proof (induction d arbitrary: s)
  case Nil
  show ?case by simp
next
  case (Cons r d)
  show ?case
  proof (cases "cache_map s (ToString (idGetter cfg (heap s r)))")
    case None
    obtain w s1 where w: "wrapRecord cfg r s = (w, s1)"
      by (cases "wrapRecord cfg r s")
    have "cache_map s1 = cache_map s" "cache_list s1 = cache_list s" "indices s1 = indices s"
      "nUpdates s1 = nUpdates s"
      using wrapRecord_storage [of cfg r s] w by simp_all
    with Cons.IH [of s1] None w show ?thesis
      by (simp add: case_prod_unfold Let_def)
  next
    case (Some obj)
    with Cons.IH [of s] show ?thesis
      by (simp add: case_prod_unfold Let_def)
  qed
qed

lemma filterUpdates_all_cached:
  assumes "\<forall>r \<in> set d. cache_map s (ToString (idGetter cfg (heap s r))) \<noteq> None"
  shows "snd (filterUpdates cfg d s) = s"
  using assms
proof (induction d)
  case Nil
  show ?case by simp
next
  case (Cons r d)
  then obtain obj where "cache_map s (ToString (idGetter cfg (heap s r))) = Some obj"
    by auto
  with Cons show ?case
    by (simp add: case_prod_unfold Let_def)
qed

lemma applyUpdates_next_addr:
  "next_addr (snd (applyUpdates cfg nd s)) = next_addr s"
proof (induction nd arbitrary: s)
  case Nil
  show ?case by simp
next
  case (Cons r nd)
  show ?case
    by (cases "cache_map s (ToString (idGetter cfg (heap s r)))")
       (simp_all add: Cons.IH case_prod_unfold fire_def Let_def)
qed

lemma applyUpdates_map_mono:
  "cache_map s k = Some a \<Longrightarrow> cache_map (snd (applyUpdates cfg nd s)) k = Some a"
proof (induction nd arbitrary: s)
  case Nil
  then show ?case by simp
next
  case (Cons r nd)
  show ?case
  proof (cases "cache_map s (ToString (idGetter cfg (heap s r)))")
    case None
    with Cons.prems have "k \<noteq> ToString (idGetter cfg (heap s r))"
      by auto
    with None Cons.prems show ?thesis
      by (simp add: case_prod_unfold Let_def Cons.IH fire_def)
  next
    case (Some obj)
    with Cons.prems show ?thesis
      by (simp add: case_prod_unfold Let_def Cons.IH)
  qed
qed

lemma applyUpdates_list:
  "\<exists>new. cache_list (snd (applyUpdates cfg nd s)) = cache_list s @ new \<and>
     (\<forall>x \<in> set new. \<exists>k. cache_map s k = None \<and> cache_map (snd (applyUpdates cfg nd s)) k = Some x)"
proof (induction nd arbitrary: s)
  case Nil
  show ?case by simp
next
  case (Cons r nd)
  let ?k = "ToString (idGetter cfg (heap s r))"
  show ?case
  proof (cases "cache_map s ?k")
    case None
    define s1 where "s1 = fire [OnAddedObject r]
        (s\<lparr>cache_list := cache_list s @ [r], cache_map := (cache_map s)(?k \<mapsto> r),
           indices := map_option (\<lambda>ixs. IndexSet_addInstance ixs r (heap s r)) (indices s)\<rparr>)"
    have res: "snd (applyUpdates cfg (r # nd) s) = snd (applyUpdates cfg nd s1)"
      using None by (simp add: case_prod_unfold Let_def s1_def)
    have l1: "cache_list s1 = cache_list s @ [r]" and m1: "cache_map s1 = (cache_map s)(?k \<mapsto> r)"
      by (simp_all add: s1_def fire_def)
    from Cons.IH [of s1] obtain new where
      new: "cache_list (snd (applyUpdates cfg nd s1)) = cache_list s1 @ new"
        "\<forall>x \<in> set new. \<exists>k. cache_map s1 k = None \<and> cache_map (snd (applyUpdates cfg nd s1)) k = Some x"
      by blast
    have r: "cache_map (snd (applyUpdates cfg nd s1)) ?k = Some r"
      by (rule applyUpdates_map_mono) (simp add: m1)
    have "\<forall>x \<in> set (r # new). \<exists>k. cache_map s k = None \<and> cache_map (snd (applyUpdates cfg nd s1)) k = Some x"
    proof
      fix x assume "x \<in> set (r # new)"
      then consider "x = r" | "x \<in> set new" by auto
      then show "\<exists>k. cache_map s k = None \<and> cache_map (snd (applyUpdates cfg nd s1)) k = Some x"
      proof cases
        case 1
        with None r show ?thesis by blast
      next
        case 2
        with new(2) obtain k where k: "cache_map s1 k = None" "cache_map (snd (applyUpdates cfg nd s1)) k = Some x"
          by blast
        from k(1) have "cache_map s k = None"
          by (simp add: m1 split: if_splits)
        with k(2) show ?thesis by blast
      qed
    qed
    moreover have "cache_list (snd (applyUpdates cfg nd s1)) = cache_list s @ (r # new)"
      by (simp add: new(1) l1)
    ultimately show ?thesis
      unfolding res by blast
  next
    case (Some obj)
    define s1 where "s1 = s\<lparr>heap := (heap s)(obj := mergeProps (heap s obj) (heap s r))\<rparr>"
    have res: "snd (applyUpdates cfg (r # nd) s) = snd (applyUpdates cfg nd s1)"
      using Some by (simp add: case_prod_unfold Let_def s1_def)
    have "cache_list s1 = cache_list s" "cache_map s1 = cache_map s"
      by (simp_all add: s1_def)
    with Cons.IH [of s1] show ?thesis
      unfolding res by simp
  qed
qed

subsection \<open>Identity of cached objects\<close>

text \<open>
  C5. A merge by \<^verbatim>\<open>_applyChanges\<close> keeps every object that is cached under an id
  at that id: \<^verbatim>\<open>map[id]\<close> is the same reference afterwards, whatever was merged.
  \<^verbatim>\<open>list\<close> keeps its entries and only grows by objects stored under ids that were
  not in \<^verbatim>\<open>map\<close> before; when every incoming record has an id that is in
  \<^verbatim>\<open>map\<close>, no object is constructed at all.
\<close>

theorem merge_keeps_identity:
  "(cache_map s k = Some a \<longrightarrow> cache_map (snd (priv_applyChanges cfg data q s)) k = Some a) \<and>
   (\<exists>new. cache_list (snd (priv_applyChanges cfg data q s)) = cache_list s @ new \<and>
      (\<forall>x \<in> set new. \<exists>k'. cache_map s k' = None \<and>
         cache_map (snd (priv_applyChanges cfg data q s)) k' = Some x)) \<and>
   ((\<forall>d. data = Some d \<longrightarrow> (\<forall>r \<in> set d. cache_map s (ToString (idGetter cfg (heap s r))) \<noteq> None)) \<longrightarrow>
      next_addr (snd (priv_applyChanges cfg data q s)) = next_addr s)"
proof (cases data)
  case None
  then show ?thesis
    by (simp add: priv_applyChanges_def fire_def)
next
  case (Some d)
  define s1 where "s1 = snd (filterUpdates cfg d s)"
  define nd where "nd = fst (filterUpdates cfg d s)"
  define s2 where "s2 = fire [Updating nd q] s1"
  define s3 where "s3 = snd (applyUpdates cfg nd s2)"
  have st: "cache_map s2 = cache_map s" "cache_list s2 = cache_list s"
    using filterUpdates_storage [of cfg d s] by (simp_all add: s2_def s1_def fire_def)
  have res: "cache_map (snd (priv_applyChanges cfg data q s)) = cache_map s3"
    "cache_list (snd (priv_applyChanges cfg data q s)) = cache_list s3"
    "next_addr (snd (priv_applyChanges cfg data q s)) = next_addr s3"
    by (simp_all add: Some priv_applyChanges_def case_prod_unfold Let_def fire_def
        s3_def s2_def s1_def nd_def)
  have one: "cache_map s k = Some a \<longrightarrow> cache_map s3 k = Some a"
    using applyUpdates_map_mono [of s2 k a cfg nd] by (simp add: st s3_def)
  have two: "\<exists>new. cache_list s3 = cache_list s @ new \<and>
      (\<forall>x \<in> set new. \<exists>k'. cache_map s k' = None \<and> cache_map s3 k' = Some x)"
    using applyUpdates_list [of cfg nd s2] by (simp add: st s3_def)
  have three: "next_addr s3 = next_addr s"
    if "\<forall>r \<in> set d. cache_map s (ToString (idGetter cfg (heap s r))) \<noteq> None"
  proof -
    have "s1 = s"
      unfolding s1_def by (rule filterUpdates_all_cached [OF that])
    then show ?thesis
      by (simp add: s3_def applyUpdates_next_addr s2_def fire_def)
  qed
  show ?thesis
    unfolding res using one two three by (simp add: Some)
qed

theorem merge_keeps_identity_witness:
  "cache_map users_remerged ''1'' = Some 10 \<and>
   cache_map (snd (priv_applyChanges users_cfg (Some [12]) JUndefined users_remerged)) ''1'' = Some 10 \<and>
   next_addr (snd (priv_applyChanges users_cfg (Some [12]) JUndefined users_remerged)) = 13"
proof -
  have a: "cache_map users_remerged ''1'' = Some 10"
    by (simp add: users_remerged_eq users_inserted_simps)
  have b: "\<forall>d. Some [12] = Some d \<longrightarrow>
      (\<forall>r \<in> set d. cache_map users_remerged (ToString (idGetter users_cfg (heap users_remerged r))) \<noteq> None)"
    by (simp add: users_remerged_eq users_inserted_simps users_cfg_simps users_heap_simps
        getProp_def show_int_1)
  have c: "next_addr users_remerged = 13"
    by (simp add: users_remerged_eq users_inserted_eq)
  show ?thesis
    using merge_keeps_identity [of users_remerged "''1''" 10 users_cfg "Some [12]" JUndefined] a b c
    by simp
qed

subsection \<open>Optimistic update and its rollback\<close>

lemma profile_cached_eq:
  "profile_cached =
     \<lparr>heap = profile_heap, next_addr = 22, cache_list = [20], cache_map = [''1'' \<mapsto> 20],
      indices = None, nUpdates = 1,
      fired = [OnWrapObject (JRef 20), Wrapped (JRef 20), Updating [20] JUndefined,
               OnAddedObject 20, OnCacheChanged [20], Updated [20] JUndefined]\<rparr>"
proof -
  have "cache_map (Client_ctor None profile_heap 22)
      (ToString (idGetter users_cfg (heap (Client_ctor None profile_heap 22) 20))) = None"
    by (simp add: Client_ctor_def)
  then show ?thesis
    unfolding profile_cached_def
    by (simp add: applyChange_uncached users_cfg_simps)
       (simp add: Client_ctor_def profile_heap_def getProp_def show_int_1)
qed

lemma rejected_update_steps:
  assumes cached: "cache_map s (ToString (idGetter cfg (heap s obj))) = Some obj"
    and match: "ToString (idGetter cfg (heap s queryInput)) = ToString (idGetter cfg (heap s obj))"
    and below: "obj < next_addr s" "queryInput < next_addr s"
  shows "\<exists>h n u ev.
      updateObject cfg queryInput (Rejected err) s
        = Inr (s\<lparr>heap := h, next_addr := n, nUpdates := Suc (Suc (nUpdates s)),
                 fired := fired s @ ev @ [HandleError err]\<rparr>) \<and>
      (\<forall>a. a \<noteq> obj \<and> a < next_addr s \<longrightarrow> h a = heap s a) \<and>
      (h obj = mergeProps u (heap s obj) \<or>
         h obj = u \<and> \<not> hasChanged cfg h (heap s obj) u)"
proof -
  define c where "c = next_addr s"
  define s1 where "s1 = s\<lparr>heap := (heap s)(c := heap s obj), next_addr := Suc c\<rparr>"
  have ne: "c \<noteq> obj" "c \<noteq> queryInput"
    using below by (simp_all add: c_def)
  have find: "getObjectNowById s (idGetter cfg (heap s queryInput)) = Some obj"
    by (simp add: getObjectNowById_def match cached)
  have cl: "clone (Some obj) s = (Some c, s1)"
    by (simp add: clone_def alloc_def s1_def c_def)
  have k1: "cache_map s1 (ToString (idGetter cfg (heap s1 queryInput))) = Some obj"
    using ne by (simp add: s1_def match cached)
  obtain nd s2 where first: "priv_applyChanges cfg (Some [queryInput]) JUndefined s1 = (nd, s2)"
    by (cases "priv_applyChanges cfg (Some [queryInput]) JUndefined s1")
  define s3 where "s3 = fire [HostRequest ''updateObject'' (cache_name cfg) (JRef queryInput)] s2"
  have s2_shape: "\<exists>u ev. s2 = s1\<lparr>heap := (heap s1)(obj := u), nUpdates := Suc (nUpdates s1),
      fired := fired s1 @ ev\<rparr>"
  proof (cases "hasChanged cfg (heap s1) (heap s1 queryInput) (heap s1 obj)")
    case True
    with first applyChange_cached [OF k1, of JUndefined] show ?thesis by auto
  next
    case False
    with first applyChange_cached [OF k1, of JUndefined]
    have "s2 = s1\<lparr>heap := (heap s1)(obj := heap s1 obj), nUpdates := Suc (nUpdates s1),
        fired := fired s1 @ [Updating [] JUndefined, OnCacheChanged [], Updated [] JUndefined]\<rparr>"
      by auto
    then show ?thesis by blast
  qed
  then obtain u ev where s2: "s2 = s1\<lparr>heap := (heap s1)(obj := u), nUpdates := Suc (nUpdates s1),
      fired := fired s1 @ ev\<rparr>"
    by blast
  have h3: "heap s3 = (heap s)(c := heap s obj, obj := u)"
    by (simp add: s3_def fire_def s2 s1_def)
  have k3: "cache_map s3 (ToString (idGetter cfg (heap s3 c))) = Some obj"
    using ne by (simp add: h3) (simp add: s3_def fire_def s2 s1_def cached)
  obtain nd' s4 where second: "priv_applyChanges cfg (Some [c]) JUndefined s3 = (nd', s4)"
    by (cases "priv_applyChanges cfg (Some [c]) JUndefined s3")
  have upd: "updateObject cfg queryInput (Rejected err) s = Inr (fire [HandleError err] s4)"
    by (simp add: updateObject_def find cl applyChange_def first second s3_def [symmetric] Let_def)
  have c3: "heap s3 c = heap s obj" "heap s3 obj = u"
    using ne by (simp_all add: h3)
  show ?thesis
  proof (cases "hasChanged cfg (heap s3) (heap s3 c) (heap s3 obj)")
    case True
    with second applyChange_cached [OF k3, of JUndefined]
    have s4: "s4 = s3\<lparr>heap := (heap s3)(obj := mergeProps (heap s3 obj) (heap s3 c)),
        nUpdates := Suc (nUpdates s3),
        fired := fired s3 @ [Updating [c] JUndefined, OnCacheChanged [obj], Updated [obj] JUndefined]\<rparr>"
      by auto
    have fin: "fire [HandleError err] s4 =
        s\<lparr>heap := (heap s3)(obj := mergeProps u (heap s obj)), next_addr := Suc c,
          nUpdates := Suc (Suc (nUpdates s)),
          fired := fired s @ (ev @ [HostRequest ''updateObject'' (cache_name cfg) (JRef queryInput),
             Updating [c] JUndefined, OnCacheChanged [obj], Updated [obj] JUndefined]) @ [HandleError err]\<rparr>"
      by (simp add: s4 c3) (simp add: s3_def fire_def s2 s1_def)
    show ?thesis
      unfolding upd fin
      by (rule exI [of _ "(heap s3)(obj := mergeProps u (heap s obj))"], rule exI [of _ "Suc c"],
          rule exI [of _ u],
          rule exI [of _ "ev @ [HostRequest ''updateObject'' (cache_name cfg) (JRef queryInput),
             Updating [c] JUndefined, OnCacheChanged [obj], Updated [obj] JUndefined]"])
         (simp add: h3 c_def)
  next
    case False
    with second applyChange_cached [OF k3, of JUndefined]
    have s4: "s4 = s3\<lparr>nUpdates := Suc (nUpdates s3),
        fired := fired s3 @ [Updating [] JUndefined, OnCacheChanged [], Updated [] JUndefined]\<rparr>"
      by auto
    have fin: "fire [HandleError err] s4 =
        s\<lparr>heap := heap s3, next_addr := Suc c, nUpdates := Suc (Suc (nUpdates s)),
          fired := fired s @ (ev @ [HostRequest ''updateObject'' (cache_name cfg) (JRef queryInput),
             Updating [] JUndefined, OnCacheChanged [], Updated [] JUndefined]) @ [HandleError err]\<rparr>"
      by (simp add: s4) (simp add: s3_def fire_def s2 s1_def)
    have same: "\<not> hasChanged cfg (heap s3) (heap s obj) u"
      using False by (simp add: c3)
    show ?thesis
      unfolding upd fin
      by (rule exI [of _ "heap s3"], rule exI [of _ "Suc c"], rule exI [of _ u],
          rule exI [of _ "ev @ [HostRequest ''updateObject'' (cache_name cfg) (JRef queryInput),
             Updating [] JUndefined, OnCacheChanged [], Updated [] JUndefined]"])
         (simp add: same c3, simp add: h3 c_def)
  qed
qed

text \<open>
  C1, as the claim states it, fails: after the rejected update
  \<^verbatim>\<open>{id: 1, name: "X", nick: "x"}\<close> of \<^verbatim>\<open>{id: 1, name: "Ann"}\<close> the name is
  back, but the object still has the property \<^verbatim>\<open>nick\<close> it did not have before,
  and \<^verbatim>\<open>nUpdates\<close> has gone from 1 to 3: the state is not the state before the
  call.
\<close>

theorem rejected_update_keeps_new_property:
  "cache_map profile_cached ''1'' = Some 20 \<and>
   heap profile_cached 20 = [(''id'', JNum 1), (''name'', JStr ''Ann'')] \<and>
   nUpdates profile_cached = 1 \<and>
   updateObject users_cfg 21 (Rejected ''error.invalid.permissions'') profile_cached = Inr profile_after \<and>
   heap profile_after 20 = [(''id'', JNum 1), (''name'', JStr ''Ann''), (''nick'', JStr ''x'')] \<and>
   nUpdates profile_after = 3"
proof -
  have "updateObject users_cfg 21 (Rejected ''error.invalid.permissions'') profile_cached = Inr profile_after"
    unfolding profile_after_def
    by (simp add: profile_cached_eq updateObject_def getObjectNowById_def clone_def alloc_def
        applyChange_def priv_applyChanges_def fire_def users_cfg_simps profile_heap_def
        getProp_def show_int_1 hasChanged_def mergeProps_def Let_def)
  then show ?thesis
    by (simp add: profile_after_def) (simp add: profile_cached_eq profile_heap_def)
qed

text \<open>
  C1, amended. Let an object be cached under its id and let the update input have that
  id. When the host rejects the update, the rollback has run when the call is over and:
  every property the object had before the call has its value from before the call
  (identical, or equal for \<^verbatim>\<open>angular.equals\<close> where the rollback found nothing to
  copy); the object is the same object, at the same place in \<^verbatim>\<open>map\<close> and
  \<^verbatim>\<open>list\<close>, which are unchanged like the indices and every other object;
  \<^verbatim>\<open>nUpdates\<close> has grown by two, one for each merge; and the error is handed to
  the error handler last.
\<close>

theorem rejected_update_rollback:
  assumes "cache_map s (ToString (idGetter cfg (heap s obj))) = Some obj"
    and "ToString (idGetter cfg (heap s queryInput)) = ToString (idGetter cfg (heap s obj))"
    and "obj < next_addr s" and "queryInput < next_addr s"
  shows "\<exists>s'. updateObject cfg queryInput (Rejected err) s = Inr s' \<and>
      cache_map s' = cache_map s \<and> cache_list s' = cache_list s \<and> indices s' = indices s \<and>
      nUpdates s' = nUpdates s + 2 \<and>
      (\<forall>propName \<in> fst ` set (heap s obj).
          getProp (heap s' obj) propName = getProp (heap s obj) propName \<or>
          angular_equals cfg (heap s') (getProp (heap s obj) propName) (getProp (heap s' obj) propName)) \<and>
      (\<forall>a. a \<noteq> obj \<and> a < next_addr s \<longrightarrow> heap s' a = heap s a) \<and>
      last (fired s') = HandleError err"
proof -
  from rejected_update_steps [OF assms, of err] obtain h n u ev where
    res: "updateObject cfg queryInput (Rejected err) s
        = Inr (s\<lparr>heap := h, next_addr := n, nUpdates := Suc (Suc (nUpdates s)),
                 fired := fired s @ ev @ [HandleError err]\<rparr>)"
    and others: "\<forall>a. a \<noteq> obj \<and> a < next_addr s \<longrightarrow> h a = heap s a"
    and obj: "h obj = mergeProps u (heap s obj) \<or> h obj = u \<and> \<not> hasChanged cfg h (heap s obj) u"
    by blast
  have props: "getProp (h obj) propName = getProp (heap s obj) propName \<or>
      angular_equals cfg h (getProp (heap s obj) propName) (getProp (h obj) propName)"
    if "propName \<in> fst ` set (heap s obj)" for propName
    using obj
  proof
    assume "h obj = mergeProps u (heap s obj)"
    with that show ?thesis by (simp add: getProp_mergeProps)
  next
    assume "h obj = u \<and> \<not> hasChanged cfg h (heap s obj) u"
    with that show ?thesis by (auto simp: hasChanged_def list_ex_iff)
  qed
  show ?thesis
    unfolding res
    by (rule exI [of _ "s\<lparr>heap := h, next_addr := n, nUpdates := Suc (Suc (nUpdates s)),
          fired := fired s @ ev @ [HandleError err]\<rparr>"])
       (use others props in simp)
qed

theorem rejected_update_rollback_witness:
  "\<exists>s'. updateObject users_cfg 21 (Rejected ''error.invalid.permissions'') profile_cached = Inr s' \<and>
      cache_map s' = cache_map profile_cached \<and> cache_list s' = cache_list profile_cached \<and>
      nUpdates s' = 3 \<and>
      getProp (heap s' 20) ''name'' = JStr ''Ann'' \<and> getProp (heap s' 20) ''id'' = JNum 1 \<and>
      last (fired s') = HandleError ''error.invalid.permissions''"
proof -
  have a: "cache_map profile_cached (ToString (idGetter users_cfg (heap profile_cached 20))) = Some 20"
    by (simp add: profile_cached_eq users_cfg_simps profile_heap_def getProp_def show_int_1)
  have b: "ToString (idGetter users_cfg (heap profile_cached 21))
      = ToString (idGetter users_cfg (heap profile_cached 20))"
    by (simp add: profile_cached_eq users_cfg_simps profile_heap_def getProp_def)
  have c: "20 < next_addr profile_cached" "21 < next_addr profile_cached"
    by (simp_all add: profile_cached_eq)
  have d: "heap profile_cached 20 = [(''id'', JNum 1), (''name'', JStr ''Ann'')]"
    "nUpdates profile_cached = 1"
    by (simp_all add: profile_cached_eq profile_heap_def)
  from rejected_update_rollback [OF a b c, of "''error.invalid.permissions''"]
  show ?thesis
    by (auto simp: d users_cfg_simps getProp_def)
qed

subsection \<open>Optimistic delete and its rollback\<close>








lemma removeFromCache_cached:
  assumes "resolveId cfg (heap s) objectOrId = Inr ident"
    and "cache_map s (ToString ident) = Some obj"
  shows "removeFromCache cfg objectOrId s =
     Inr (Some obj,
       s\<lparr>cache_list := spliceFirst (\<lambda>entry. loose_eq (idGetter cfg (heap s entry)) ident) (cache_list s),
         cache_map := (cache_map s)(ToString ident := None),
         indices := map_option (\<lambda>ixs. IndexSet_removeInstance ixs obj (heap s obj)) (indices s),
         fired := fired s @ [OnRemovedObject obj, Removed obj]\<rparr>)"
  using assms by (simp add: removeFromCache_def fire_def)






subsection \<open>Removing from the cache\<close>

lemma removeFromCache_unknown:
  assumes "resolveId cfg (heap s) objectOrId = Inr ident"
    and "cache_map s (ToString ident) = None"
  shows "removeFromCache cfg objectOrId s = Inr (None, s)"
  using assms by (simp add: removeFromCache_def)

lemma removeFromCache_misses:
  assumes "resolveId cfg (heap s) objectOrId = Inr ident"
    and "cache_map s (ToString ident) = Some obj"
    and "\<not> isNaN ident"
  shows "\<exists>s'. removeFromCache cfg objectOrId s = Inr (Some obj, s') \<and>
      cache_map s' (ToString ident) = None \<and>
      getObjectNow s' ident = Returned JUndefined \<and>
      fired s' = fired s @ [OnRemovedObject obj, Removed obj]"
  using assms(3)
  by (simp add: removeFromCache_cached [OF assms(1,2)] getObjectNow_def)

text \<open>
  C6. In the scenario, after the merge that changed the address to
  \<^verbatim>\<open>"b@x.com"\<close>, \<^verbatim>\<open>removeFromCache(1)\<close> returns the object and takes it out
  of \<^verbatim>\<open>map\<close> and \<^verbatim>\<open>list\<close>, and \<^verbatim>\<open>getObjectNow(1)\<close> misses. The index
  on \<^verbatim>\<open>email\<close> is asked to delete the entry under the object's present address,
  where there is none; the entry under \<^verbatim>\<open>"a@x.com"\<close>, made when the object was
  inserted, stays, and a lookup there still returns the removed object.
\<close>

theorem removed_object_stays_in_stale_index:
  "removeFromCache users_cfg (JNum 1) users_changed = Inr (Some 10, users_removed) \<and>
   getObjectNow users_removed (JNum 1) = Returned JUndefined \<and>
   cache_list users_removed = [] \<and>
   cache_map users_removed ''1'' = None \<and>
   indices users_removed = Some [email_index] \<and>
   fst (Index_get email_index [JStr ''a@x.com'']) = Some (One 10)"
proof -
  have a: "resolveId users_cfg (heap users_changed) (JNum 1) = Inr (JNum 1)"
    by (simp add: resolveId_def)
  have b: "cache_map users_changed (ToString (JNum 1)) = Some 10"
    by (simp add: users_changed_eq users_remerged_eq users_inserted_simps show_int_1)
  have "removeFromCache users_cfg (JNum 1) users_changed = Inr (Some 10, users_removed)"
    unfolding users_removed_def
    by (simp add: removeFromCache_cached [OF a b])
       (simp add: users_changed_eq users_remerged_eq users_inserted_eq users_cfg_simps
          show_int_1 getProp_def
          IndexSet_removeInstance_def sharers_def Index_removeInstance_def objPath_def
          leafPropertyName_def
          email_index_def)
  then show ?thesis
    by (simp add: users_removed_def getObjectNow_def)
       (simp add: users_changed_eq users_remerged_eq users_inserted_simps
          email_index_def Index_get_def argPath_def)
qed

subsection \<open>Wrapping an incoming record\<close>

lemma wrapObject_JRef:
  "wrapObject cfg (JRef newValues) s
     = (JRef (fst (wrapRecord cfg newValues s)), snd (wrapRecord cfg newValues s))"
  by (simp add: wrapObject_def wrapRecord_def enumProps_def alloc_def Let_def)

end
